theory Spec2Isabelle
  imports Complex_Main
begin

chapter \<open>The model\<close>

section \<open>Tool-name sanitization (tool-schema-cache)\<close>

text \<open>
  The module keeps a process-wide map \<open>sanitizedToOriginalToolName\<close>. It is modelled as
  an explicit state that \<open>sanitizeToolNameForGemini\<close> takes and returns.
  Strings are lists of 8-bit characters.
\<close>

type_synonym name_map = "string \<rightharpoonup> string"

text \<open>The regular expression \<^verbatim>\<open>/^[0-9]/\<close>: the first character is a decimal digit.\<close>

definition starts_with_digit :: "string \<Rightarrow> bool" where
  "starts_with_digit name = (case name of [] \<Rightarrow> False | c # _ \<Rightarrow> c \<in> set ''0123456789'')"

definition sanitizeToolNameForGemini :: "name_map \<Rightarrow> string \<Rightarrow> string \<times> name_map" where
  "sanitizeToolNameForGemini m name =
     (let sanitized = (if starts_with_digit name then ''t_'' @ name else name)
      in (sanitized, if sanitized \<noteq> name then m(sanitized \<mapsto> name) else m))"

definition resolveOriginalToolName :: "name_map \<Rightarrow> string \<Rightarrow> string" where
  "resolveOriginalToolName m name = (case m name of Some original \<Rightarrow> original | None \<Rightarrow> name)"

text \<open>Sanitizing a name in state \<open>m\<close> and resolving the result in the state that follows.\<close>

definition sanitize_then_resolve :: "name_map \<Rightarrow> string \<Rightarrow> string" where
  "sanitize_then_resolve m name =
     (case sanitizeToolNameForGemini m name of (sanitized, m') \<Rightarrow> resolveOriginalToolName m' sanitized)"


section \<open>Strings\<close>

text \<open>
  \<open>String.prototype.trim\<close> removes white space and line terminators from both ends.
  Within the 8-bit characters of the model these are TAB, LF, VT, FF, CR, SPACE and
  NBSP.
\<close>

definition js_whitespace :: "char \<Rightarrow> bool" where
  "js_whitespace c = (c \<in> set [CHR 0x09, CHR 0x0A, CHR 0x0B, CHR 0x0C, CHR 0x0D, CHR 0x20, CHR 0xA0])"

definition js_trim :: "string \<Rightarrow> string" where
  "js_trim s = rev (dropWhile js_whitespace (rev (dropWhile js_whitespace s)))"

text \<open>A number in a template literal: its decimal digits.\<close>

fun decimal :: "nat \<Rightarrow> string" where
  "decimal n =
     (if n < 10 then [''0123456789'' ! n] else decimal (n div 10) @ [''0123456789'' ! (n mod 10)])"


section \<open>Thinking configuration (antigravity-client)\<close>

text \<open>
  \<open>ModelConfig['thinking']\<close> as the client reads it: a \<open>type\<close> tag (only compared with
  \<open>'disabled'\<close>), an optional effort and an optional token budget.
\<close>

datatype thinking_effort = Minimal | Low | Medium | High | XHigh | NoEffort

record thinking_config =
  thinking_type :: string
  effort :: "thinking_effort option"
  budgetTokens :: "int option"

datatype config_value = CBool bool | CStr string | CNum int

text \<open>The test \<^verbatim>\<open>thinking.type === 'disabled' || thinking.effort === 'none'\<close>.\<close>

definition thinking_off :: "thinking_config \<Rightarrow> bool" where
  "thinking_off t = (thinking_type t = ''disabled'' \<or> effort t = Some NoEffort)"

definition mapThinkingEffortToLevelString :: "thinking_effort \<Rightarrow> string" where
  "mapThinkingEffortToLevelString e =
     (case e of
        Minimal \<Rightarrow> ''minimal''
      | Low \<Rightarrow> ''low''
      | Medium \<Rightarrow> ''medium''
      | High \<Rightarrow> ''high''
      | XHigh \<Rightarrow> ''high''
      | NoEffort \<Rightarrow> ''minimal'')"

text \<open>
  The result object is a map from keys to values; \<open>delete out[k]\<close> is \<open>out(k := None)\<close>.
  The first argument is \<open>model.thinking\<close>, \<open>None\<close> when the model has no thinking setting.
\<close>

definition buildThinkingConfigForAntigravity ::
  "thinking_config option \<Rightarrow> bool \<Rightarrow> (string \<rightharpoonup> config_value) option" where
  "buildThinkingConfigForAntigravity thinking useThinkingLevel =
     (case thinking of
        None \<Rightarrow> None
      | Some t \<Rightarrow>
          if thinking_off t then
            (if useThinkingLevel
             then Some [''includeThoughts'' \<mapsto> CBool False, ''thinkingLevel'' \<mapsto> CStr ''minimal'']
             else Some [''includeThoughts'' \<mapsto> CBool False, ''thinkingBudget'' \<mapsto> CNum 0])
          else
            (let out0 = [''includeThoughts'' \<mapsto> CBool True];
                 out1 = (case effort t of
                           Some e \<Rightarrow> out0(''thinkingLevel'' \<mapsto> CStr (mapThinkingEffortToLevelString e))
                         | None \<Rightarrow> out0);
                 out2 = (case budgetTokens t of
                           Some b \<Rightarrow> out1(''thinkingBudget'' \<mapsto> CNum b)
                         | None \<Rightarrow> out1(''thinkingBudget'' \<mapsto> CNum (- 1)));
                 out3 = (if useThinkingLevel then out2(''thinkingBudget'' := None)
                         else out2(''thinkingLevel'' := None))
             in Some out3))"


section \<open>Thought signature cache\<close>

datatype family = Claude | GeminiFlash | GeminiPro

definition family_string :: "family \<Rightarrow> string" where
  "family_string f =
     (case f of Claude \<Rightarrow> ''claude'' | GeminiFlash \<Rightarrow> ''gemini-flash'' | GeminiPro \<Rightarrow> ''gemini-pro'')"

definition normalizeThoughtText :: "string \<Rightarrow> string" where
  "normalizeThoughtText text = js_trim text"

text \<open>The text that is hashed: \<^verbatim>\<open>`${family}:${sessionId}:${normalizedText}`\<close>.\<close>

definition signature_key_input :: "family \<Rightarrow> string \<Rightarrow> string \<Rightarrow> string" where
  "signature_key_input fam sessionId thoughtText =
     family_string fam @ '':'' @ sessionId @ '':'' @ normalizeThoughtText thoughtText"

text \<open>
  The digest is the SHA-256 of \<open>node:crypto\<close> in hexadecimal. It belongs to the platform
  and is a parameter \<open>digest\<close> of the model; a reference model of it, \<open>sha256_hex\<close>,
  is given further down for the closed examples.
\<close>

definition getSignatureKey :: "(string \<Rightarrow> string) \<Rightarrow> family \<Rightarrow> string \<Rightarrow> string \<Rightarrow> string" where
  "getSignatureKey digest fam sessionId thoughtText =
     digest (signature_key_input fam sessionId thoughtText)"

type_synonym signature_cache = "string \<rightharpoonup> string"

definition cacheThoughtSignature ::
  "(string \<Rightarrow> string) \<Rightarrow> signature_cache \<Rightarrow> family \<Rightarrow> string \<Rightarrow> string \<Rightarrow> string \<Rightarrow> signature_cache" where
  "cacheThoughtSignature digest cache fam sessionId thoughtText signature =
     cache(getSignatureKey digest fam sessionId thoughtText \<mapsto> signature)"

definition getCachedThoughtSignature ::
  "(string \<Rightarrow> string) \<Rightarrow> signature_cache \<Rightarrow> family \<Rightarrow> string \<Rightarrow> string \<Rightarrow> string option" where
  "getCachedThoughtSignature digest cache fam sessionId thoughtText =
     cache (getSignatureKey digest fam sessionId thoughtText)"


section \<open>Endpoint fallback (streamChat)\<close>

text \<open>
  What one call of \<open>customFetch\<close> does: it throws (the message is what the \<open>catch\<close>
  clause stores), or it returns a response. \<open>has_body\<close> is the truth value of \<open>r.body\<close>;
  \<open>body_text\<close> is what \<open>r.text()\<close> resolves to, \<open>None\<close> when it rejects.
\<close>

record http_response =
  status :: nat
  has_body :: bool
  body_text :: "string option"

datatype fetch_outcome = FetchThrows string | FetchResponse http_response

text \<open>\<open>Response.ok\<close>: the status is in the range 200 to 299.\<close>

definition response_ok :: "http_response \<Rightarrow> bool" where
  "response_ok r = (200 \<le> status r \<and> status r \<le> 299)"

text \<open>
  The loop's variables \<open>response\<close> and \<open>lastError\<close>, and the requests sent so far, in
  order (the effect of \<open>customFetch\<close>).
\<close>

record fallback_state =
  response :: "http_response option"
  lastError :: "string option"
  requests :: "string list"

definition initial_fallback_state :: fallback_state where
  "initial_fallback_state = \<lparr>response = None, lastError = None, requests = []\<rparr>"

definition endpoint_path :: "bool \<Rightarrow> string" where
  "endpoint_path streaming =
     (if streaming then ''/v1internal:streamGenerateContent?alt=sse''
      else ''/v1internal:generateContent'')"

definition endpoint_of :: "bool \<Rightarrow> string \<Rightarrow> string" where
  "endpoint_of streaming baseUrl = baseUrl @ endpoint_path streaming"

text \<open>The success test of one attempt: \<open>r.ok && r.body\<close> when streaming, \<open>r.ok\<close> otherwise.\<close>

definition attempt_succeeds :: "bool \<Rightarrow> http_response \<Rightarrow> bool" where
  "attempt_succeeds streaming r = (response_ok r \<and> (streaming \<longrightarrow> has_body r))"

text \<open>
  The message a failed attempt leaves in \<open>lastError\<close>. \<open>format_error\<close> stands for
  \<open>formatAntigravityHttpError\<close> at the requested model, which rests on the helpers of
  the module \<open>request-helpers\<close>.
\<close>

definition attempt_error :: "(nat \<Rightarrow> string \<Rightarrow> string) \<Rightarrow> fetch_outcome \<Rightarrow> string" where
  "attempt_error format_error outcome =
     (case outcome of
        FetchThrows msg \<Rightarrow> msg
      | FetchResponse r \<Rightarrow>
          (let text = (case body_text r of Some t \<Rightarrow> t | None \<Rightarrow> []);
               message = format_error (status r) text
           in js_trim (''HTTP '' @ decimal (status r) @ '' '' @ message)))"

text \<open>
  The \<open>for\<close> loop over the fallback base endpoints. \<open>fetch k url\<close> is the outcome of the
  request to \<open>url\<close> made after \<open>k\<close> earlier requests of this call.
\<close>

fun try_endpoints ::
  "(nat \<Rightarrow> string \<Rightarrow> fetch_outcome) \<Rightarrow> (nat \<Rightarrow> string \<Rightarrow> string) \<Rightarrow> bool \<Rightarrow>
   string list \<Rightarrow> fallback_state \<Rightarrow> fallback_state" where
  "try_endpoints fetch format_error streaming [] st = st"
| "try_endpoints fetch format_error streaming (baseUrl # rest) st =
     (let endpoint = endpoint_of streaming baseUrl;
          outcome = fetch (length (requests st)) endpoint;
          st1 = st\<lparr>requests := requests st @ [endpoint]\<rparr>
      in case outcome of
           FetchResponse r \<Rightarrow>
             if attempt_succeeds streaming r then st1\<lparr>response := Some r\<rparr>
             else try_endpoints fetch format_error streaming rest
                    (st1\<lparr>lastError := Some (attempt_error format_error outcome)\<rparr>)
         | FetchThrows msg \<Rightarrow>
             try_endpoints fetch format_error streaming rest
               (st1\<lparr>lastError := Some (attempt_error format_error outcome)\<rparr>))"

text \<open>An attempt fails when the request throws or the success test is false.\<close>

definition attempt_failed :: "bool \<Rightarrow> fetch_outcome \<Rightarrow> bool" where
  "attempt_failed streaming outcome =
     (case outcome of FetchThrows msg \<Rightarrow> True | FetchResponse r \<Rightarrow> \<not> attempt_succeeds streaming r)"

text \<open>
  The loop followed by the check after it: the chosen response, or the error that
  \<open>streamChat\<close> throws.
\<close>

definition request_with_fallback ::
  "(nat \<Rightarrow> string \<Rightarrow> fetch_outcome) \<Rightarrow> (nat \<Rightarrow> string \<Rightarrow> string) \<Rightarrow> bool \<Rightarrow>
   string list \<Rightarrow> string + http_response" where
  "request_with_fallback fetch format_error streaming endpoints =
     (let st = try_endpoints fetch format_error streaming endpoints initial_fallback_state
      in case response st of
           Some r \<Rightarrow> Inr r
         | None \<Rightarrow>
             Inl (''Antigravity request failed: '' @
                  (case lastError st of Some e \<Rightarrow> e | None \<Rightarrow> ''Unknown error'')))"

definition CODE_ASSIST_ENDPOINT_FALLBACKS :: "string list" where
  "CODE_ASSIST_ENDPOINT_FALLBACKS =
     [''https://daily-cloudcode-pa.sandbox.googleapis.com'',
      ''https://autopush-cloudcode-pa.sandbox.googleapis.com'',
      ''https://cloudcode-pa.googleapis.com'']"


section \<open>Server-sent events (sse)\<close>

definition LF :: char where
  "LF = CHR 0x0A"

definition CR :: char where
  "CR = CHR 0x0D"

record 'n sse_event =
  data :: string
  event :: "string option"
  event_id :: "string option"
  retry :: "'n option"

text \<open>\<open>buffer.indexOf('\n\n')\<close>: the position of the first two adjacent line feeds.\<close>

fun find_boundary :: "string \<Rightarrow> nat option" where
  "find_boundary (a # b # cs) =
     (if a = LF \<and> b = LF then Some 0 else map_option Suc (find_boundary (b # cs)))"
| "find_boundary cs = None"

text \<open>
  \<open>raw.split(/\r?\n/)\<close>: the text is cut at every line feed, and a carriage return
  right before a line feed belongs to the separator.
\<close>

definition extend_first :: "char \<Rightarrow> string list \<Rightarrow> string list" where
  "extend_first c ls = (case ls of [] \<Rightarrow> [[c]] | l # ls' \<Rightarrow> (c # l) # ls')"

fun split_lines :: "string \<Rightarrow> string list" where
  "split_lines [] = [[]]"
| "split_lines [c] = (if c = LF then [[], []] else [[c]])"
| "split_lines (c # d # cs) =
     (if c = LF then [] # split_lines (d # cs)
      else if c = CR \<and> d = LF then [] # split_lines cs
      else extend_first c (split_lines (d # cs)))"

text \<open>The variables \<open>dataParts\<close>, \<open>event\<close>, \<open>id\<close> and \<open>retry\<close> of one frame.\<close>

record 'n frame_fields =
  dataParts :: "string list"
  f_event :: "string option"
  f_id :: "string option"
  f_retry :: "'n option"

definition empty_fields :: "'n frame_fields" where
  "empty_fields = \<lparr>dataParts = [], f_event = None, f_id = None, f_retry = None\<rparr>"

text \<open>
  The body of the loop over the lines of a frame. \<open>num value\<close> is \<open>Number(value)\<close> when
  that is neither NaN nor infinite, and \<open>None\<close> otherwise; \<open>Number\<close> belongs to the
  platform and is a parameter.
\<close>

definition process_line :: "(string \<Rightarrow> 'n option) \<Rightarrow> 'n frame_fields \<Rightarrow> string \<Rightarrow> 'n frame_fields" where
  "process_line num fs line =
     (if line = [] \<or> hd line = CHR '':'' then fs
      else
        (let has_colon = (CHR '':'' \<in> set line);
             field = (if has_colon then takeWhile (\<lambda>c. c \<noteq> CHR '':'') line else line);
             rawValue = (if has_colon then tl (dropWhile (\<lambda>c. c \<noteq> CHR '':'') line) else []);
             v = (case rawValue of c # cs \<Rightarrow> if c = CHR '' '' then cs else rawValue | [] \<Rightarrow> rawValue)
         in if field = ''data'' then fs\<lparr>dataParts := dataParts fs @ [v]\<rparr>
            else if field = ''event'' then fs\<lparr>f_event := Some v\<rparr>
            else if field = ''id'' then fs\<lparr>f_id := Some v\<rparr>
            else if field = ''retry'' then
              (case num v of Some parsed \<Rightarrow> fs\<lparr>f_retry := Some parsed\<rparr> | None \<Rightarrow> fs)
            else fs))"

text \<open>\<open>dataParts.join('\n')\<close>.\<close>

fun join_lines :: "string list \<Rightarrow> string" where
  "join_lines [] = []"
| "join_lines [p] = p"
| "join_lines (p # q # ps) = p @ LF # join_lines (q # ps)"

text \<open>One frame: its event, or \<open>None\<close> when the joined data is empty (\<open>continue\<close>).\<close>

definition parse_frame :: "(string \<Rightarrow> 'n option) \<Rightarrow> string \<Rightarrow> 'n sse_event option" where
  "parse_frame num raw =
     (let fs = foldl (process_line num) empty_fields (split_lines raw);
          d = join_lines (dataParts fs)
      in if d = [] then None
         else Some \<lparr>data = d, event = f_event fs, event_id = f_id fs, retry = f_retry fs\<rparr>)"

text \<open>
  The inner \<open>while\<close> loop: frames are cut off the front of the buffer as long as it
  holds a boundary. The result is the events yielded and the buffer that remains.
\<close>

function drain :: "(string \<Rightarrow> 'n option) \<Rightarrow> string \<Rightarrow> 'n sse_event list \<times> string" where
  "drain num buffer =
     (case find_boundary buffer of
        None \<Rightarrow> ([], buffer)
      | Some boundary \<Rightarrow>
          (let raw = take boundary buffer;
               rest = drain num (drop (boundary + 2) buffer)
           in case parse_frame num raw of
                None \<Rightarrow> rest
              | Some e \<Rightarrow> (e # fst rest, snd rest)))"
  by pat_completeness auto

lemma find_boundary_bound: "find_boundary s = Some p \<Longrightarrow> p + 2 \<le> length s"
  by (induction s arbitrary: p rule: find_boundary.induct) (auto split: if_splits)

termination drain
proof (relation "measure (\<lambda>(num, buffer). length buffer)")
  show "wf (measure (\<lambda>(num, buffer). length buffer))" by simp
next
  fix num :: "string \<Rightarrow> 'n option" and buffer boundary raw
  assume "find_boundary buffer = Some boundary"
  then have "boundary + 2 \<le> length buffer" by (rule find_boundary_bound)
  then show "((num, drop (boundary + 2) buffer), (num, buffer))
               \<in> measure (\<lambda>(num, buffer). length buffer)"
    by simp
qed

declare drain.simps [simp del]

text \<open>
  \<open>decoder.decode(value, {stream: true})\<close>. The \<open>TextDecoder\<close> belongs to the platform.
  It consumes its input byte by byte and carries a state from one call to the next; it
  is a parameter \<open>step\<close> of the model, from a state and a byte to the next state and the
  text emitted.
\<close>

fun decode_chunk :: "('d \<Rightarrow> char \<Rightarrow> 'd \<times> string) \<Rightarrow> 'd \<Rightarrow> char list \<Rightarrow> 'd \<times> string" where
  "decode_chunk step d [] = (d, [])"
| "decode_chunk step d (b # bs) =
     (let r1 = step d b; r2 = decode_chunk step (fst r1) bs
      in (fst r2, snd r1 @ snd r2))"

text \<open>
  What one call of \<open>readChunk\<close> finds: the abort signal already set, or the next chunk
  of the stream. The end of the list is the end of the stream (\<open>result.done\<close>).
\<close>

datatype sse_read = Aborted | Chunk "char list"

datatype sse_outcome = Completed | Failed string

text \<open>
  The outer \<open>while\<close> loop, from the decoder state and the buffer: the events yielded,
  and how the generator ends. At the end of the stream the loop is left and the
  buffer is not looked at again.
\<close>

fun sse_loop ::
  "('d \<Rightarrow> char \<Rightarrow> 'd \<times> string) \<Rightarrow> (string \<Rightarrow> 'n option) \<Rightarrow> 'd \<Rightarrow> string \<Rightarrow> sse_read list
   \<Rightarrow> 'n sse_event list \<times> sse_outcome" where
  "sse_loop step num d buffer [] = ([], Completed)"
| "sse_loop step num d buffer (Aborted # reads) = ([], Failed ''Aborted'')"
| "sse_loop step num d buffer (Chunk bytes # reads) =
     (let dec = decode_chunk step d bytes;
          drained = drain num (buffer @ snd dec);
          later = sse_loop step num (fst dec) (snd drained) reads
      in (fst drained @ fst later, snd later))"

definition parseSseStream ::
  "('d \<Rightarrow> char \<Rightarrow> 'd \<times> string) \<Rightarrow> 'd \<Rightarrow> (string \<Rightarrow> 'n option) \<Rightarrow> sse_read list
   \<Rightarrow> 'n sse_event list \<times> sse_outcome" where
  "parseSseStream step d0 num reads = sse_loop step num d0 [] reads"

text \<open>
  The decoder on 7-bit input: a byte below 0x80 is the character of the same code, and
  no state is kept. The closed examples feed it 7-bit bytes only.
\<close>

definition seven_bit :: "unit \<Rightarrow> char \<Rightarrow> unit \<times> string" where
  "seven_bit u b = (u, [b])"


text \<open>
  The input with CRLF line endings: every line feed of the LF-encoded text becomes a
  carriage return followed by a line feed.
\<close>

fun crlf_encoding :: "string \<Rightarrow> string" where
  "crlf_encoding [] = []"
| "crlf_encoding (c # cs) = (if c = LF then CR # LF # crlf_encoding cs else c # crlf_encoding cs)"


section \<open>JSON values and the platform's parser\<close>

text \<open>
  The values that tool-call arguments and tool results hold. An object is the list of
  its entries in the order of \<open>Object.entries\<close>. A number is carried as an exact
  rational; the functions below pass numbers on unchanged.
\<close>

datatype json =
    JNull
  | JBool bool
  | JNum rat
  | JStr string
  | JArr "json list"
  | JObj "(string \<times> json) list"

definition BS :: char where
  "BS = CHR 0x5C"

definition DQ :: char where
  "DQ = CHR 0x22"

text \<open>\<open>s.startsWith(p)\<close>, \<open>s.endsWith(p)\<close>, \<open>s.includes(p)\<close> and \<open>s.lastIndexOf(c)\<close>.\<close>

definition startsWith :: "string \<Rightarrow> string \<Rightarrow> bool" where
  "startsWith s p = (take (length p) s = p)"

definition endsWith :: "string \<Rightarrow> string \<Rightarrow> bool" where
  "endsWith s p = (length p \<le> length s \<and> drop (length s - length p) s = p)"

fun str_includes :: "string \<Rightarrow> string \<Rightarrow> bool" where
  "str_includes [] p = (p = [])"
| "str_includes (c # cs) p = (startsWith (c # cs) p \<or> str_includes cs p)"

fun lastIndexOf :: "string \<Rightarrow> char \<Rightarrow> nat option" where
  "lastIndexOf [] c = None"
| "lastIndexOf (x # xs) c =
     (case lastIndexOf xs c of
        Some i \<Rightarrow> Some (Suc i)
      | None \<Rightarrow> if x = c then Some 0 else None)"


section \<open>Tool schema cache and tool-call arguments (normalize-tool-args)\<close>




text \<open>The two tests on escape sequences written out in the text.\<close>

definition hasControlCharEscapes :: "string \<Rightarrow> bool" where
  "hasControlCharEscapes v = (str_includes v [BS, CHR ''n''] \<or> str_includes v [BS, CHR ''t''])"

definition hasIntentionalEscapes :: "string \<Rightarrow> bool" where
  "hasIntentionalEscapes v = (str_includes v [BS, DQ] \<or> str_includes v [BS, BS])"

text \<open>
  \<^verbatim>\<open>`"${value.split('"').join('\\"')}"`\<close>: every double quote of the value is preceded
  by a backslash, and the whole is put between double quotes.
\<close>

definition quote_literal :: "string \<Rightarrow> string" where
  "quote_literal v = DQ # concat (map (\<lambda>c. if c = DQ then [BS, DQ] else [c]) v) @ [DQ]"







section \<open>Function-response normalization (normalize-tool-args)\<close>

text \<open>
  The string case of \<open>recursivelyParseJsonStrings\<close> up to its recursive calls: the value
  to return, or the parsed value that the walk continues with.
\<close>

datatype string_step = Return json | Recurse json

definition truncated_repair :: "(string \<Rightarrow> json option) \<Rightarrow> string \<Rightarrow> char \<Rightarrow> json option" where
  "truncated_repair parse stripped rb =
     (case lastIndexOf stripped rb of
        None \<Rightarrow> None
      | Some lastBracket \<Rightarrow>
          if lastBracket > 0 then parse (take (lastBracket + 1) stripped) else None)"

definition string_case :: "(string \<Rightarrow> json option) \<Rightarrow> string \<Rightarrow> string_step" where
  "string_case parse v =
     (let stripped = js_trim v;
          unescaped =
            (if hasControlCharEscapes v \<and> \<not> hasIntentionalEscapes v
             then (case parse (quote_literal v) of Some (JStr u) \<Rightarrow> Some u | _ \<Rightarrow> None)
             else None)
      in case unescaped of
           Some u \<Rightarrow> Return (JStr u)
         | None \<Rightarrow>
             if stripped \<noteq> [] \<and> (startsWith stripped ''{'' \<or> startsWith stripped ''['') then
               (let isWellFormed =
                      ((startsWith stripped ''{'' \<and> endsWith stripped ''}'')
                       \<or> (startsWith stripped ''['' \<and> endsWith stripped '']''));
                    whole = (if isWellFormed then parse v else None);
                    array_fix =
                      (if startsWith stripped ''['' \<and> \<not> endsWith stripped '']''
                       then truncated_repair parse stripped CHR '']'' else None);
                    object_fix =
                      (if startsWith stripped ''{'' \<and> \<not> endsWith stripped ''}''
                       then truncated_repair parse stripped CHR ''}'' else None)
                in case whole of
                     Some parsed \<Rightarrow> Recurse parsed
                   | None \<Rightarrow>
                       (case array_fix of
                          Some parsed \<Rightarrow> Recurse parsed
                        | None \<Rightarrow>
                            (case object_fix of
                               Some parsed \<Rightarrow> Recurse parsed
                             | None \<Rightarrow> Return (JStr v))))
             else Return (JStr v))"

text \<open>
  \<open>recursivelyParseJsonStrings\<close>. The walk follows the arrays and objects of the value
  and the values parsed out of its strings; nothing in the source bounds it. The
  model counts nested calls: the first argument is the number of nested calls
  allowed, and the result is \<open>None\<close> when the walk needs more.
\<close>

fun recursivelyParseJsonStrings :: "nat \<Rightarrow> (string \<Rightarrow> json option) \<Rightarrow> json \<Rightarrow> json option" where
  "recursivelyParseJsonStrings 0 parse v = None"
| "recursivelyParseJsonStrings (Suc n) parse v =
     (case v of
        JArr items \<Rightarrow>
          map_option JArr (those (map (recursivelyParseJsonStrings n parse) items))
      | JObj entries \<Rightarrow>
          map_option JObj
            (those (map (\<lambda>(key, inner).
                      map_option (Pair key) (recursivelyParseJsonStrings n parse inner)) entries))
      | JStr s \<Rightarrow>
          (case string_case parse s of
             Return r \<Rightarrow> Some r
           | Recurse parsed \<Rightarrow> recursivelyParseJsonStrings n parse parsed)
      | _ \<Rightarrow> Some v)"


section \<open>A reference model of \<open>JSON.parse\<close>\<close>

text \<open>
  The closed examples need the platform's parser at concrete texts. \<open>json_parse\<close>
  follows the JSON grammar (ECMA-404) on the characters of the model: white space,
  the three literals, numbers (read exactly), strings with their escapes, arrays and
  objects. A \<open>\u\<close> escape above \<open>00FF\<close> names a character outside the model and is not
  accepted. The properties of an object are put in the order of \<open>Object.entries\<close>:
  array indices first, in ascending order, then the other keys in the order of their
  first occurrence; a repeated key keeps its last value.
\<close>

definition json_ws :: "char \<Rightarrow> bool" where
  "json_ws c = (c \<in> set [CHR 0x20, CHR 0x09, CHR 0x0A, CHR 0x0D])"

definition skip_ws :: "string \<Rightarrow> string" where
  "skip_ws s = dropWhile json_ws s"

definition is_digit :: "char \<Rightarrow> bool" where
  "is_digit c = (48 \<le> (of_char c :: nat) \<and> (of_char c :: nat) \<le> 57)"

definition digits_value :: "string \<Rightarrow> nat" where
  "digits_value ds = foldl (\<lambda>a c. 10 * a + ((of_char c :: nat) - 48)) 0 ds"

definition hex_value :: "char \<Rightarrow> nat option" where
  "hex_value c =
     (let n = (of_char c :: nat)
      in if 48 \<le> n \<and> n \<le> 57 then Some (n - 48)
         else if 97 \<le> n \<and> n \<le> 102 then Some (n - 87)
         else if 65 \<le> n \<and> n \<le> 70 then Some (n - 55)
         else None)"

definition hex4 :: "string \<Rightarrow> nat option" where
  "hex4 hs =
     (case map hex_value hs of
        [Some a, Some b, Some c, Some d] \<Rightarrow> Some (((a * 16 + b) * 16 + c) * 16 + d)
      | _ \<Rightarrow> None)"

definition simple_escape :: "char \<Rightarrow> char option" where
  "simple_escape e =
     (if e = DQ then Some DQ
      else if e = BS then Some BS
      else if e = CHR ''/'' then Some CHR ''/''
      else if e = CHR ''b'' then Some (CHR 0x08)
      else if e = CHR ''f'' then Some (CHR 0x0C)
      else if e = CHR ''n'' then Some (CHR 0x0A)
      else if e = CHR ''r'' then Some (CHR 0x0D)
      else if e = CHR ''t'' then Some (CHR 0x09)
      else None)"

definition cons_char :: "char \<Rightarrow> (string \<times> string) option \<Rightarrow> (string \<times> string) option" where
  "cons_char c r = map_option (\<lambda>p. (c # fst p, snd p)) r"

text \<open>The characters of a string after its opening quote, and the text after its
  closing quote.\<close>

function parse_chars :: "string \<Rightarrow> (string \<times> string) option" where
  "parse_chars [] = None"
| "parse_chars (c # cs) =
     (if c = DQ then Some ([], cs)
      else if c = BS then
        (case cs of
           [] \<Rightarrow> None
         | e # es \<Rightarrow>
             if e = CHR ''u'' then
               (case hex4 (take 4 es) of
                  Some n \<Rightarrow> if n < 256 then cons_char (char_of n) (parse_chars (drop 4 es)) else None
                | None \<Rightarrow> None)
             else
               (case simple_escape e of
                  Some ch \<Rightarrow> cons_char ch (parse_chars es)
                | None \<Rightarrow> None))
      else if (of_char c :: nat) < 32 then None
      else cons_char c (parse_chars cs))"
  by pat_completeness auto

termination parse_chars
  by (relation "measure length") auto

text \<open>A number: an optional minus, the integer part, an optional fraction and an
  optional exponent. Each stage is given by the text that follows it.\<close>

definition after_sign :: "string \<Rightarrow> string" where
  "after_sign cs = (if cs \<noteq> [] \<and> hd cs = CHR ''-'' then tl cs else cs)"

definition int_digits :: "string \<Rightarrow> string" where
  "int_digits r0 = (if hd r0 = CHR ''0'' then ''0'' else takeWhile is_digit r0)"

definition after_int :: "string \<Rightarrow> string" where
  "after_int r0 = drop (length (int_digits r0)) r0"

definition has_frac :: "string \<Rightarrow> bool" where
  "has_frac r1 = (r1 \<noteq> [] \<and> hd r1 = CHR ''.'')"

definition frac_digits :: "string \<Rightarrow> string" where
  "frac_digits r1 = (if has_frac r1 then takeWhile is_digit (tl r1) else [])"

definition after_frac :: "string \<Rightarrow> string" where
  "after_frac r1 = (if has_frac r1 then dropWhile is_digit (tl r1) else r1)"

definition has_exp :: "string \<Rightarrow> bool" where
  "has_exp r2 = (r2 \<noteq> [] \<and> (hd r2 = CHR ''e'' \<or> hd r2 = CHR ''E''))"

definition exp_negative :: "string \<Rightarrow> bool" where
  "exp_negative r2 = (has_exp r2 \<and> tl r2 \<noteq> [] \<and> hd (tl r2) = CHR ''-'')"

definition after_exp_sign :: "string \<Rightarrow> string" where
  "after_exp_sign r2 =
     (if tl r2 \<noteq> [] \<and> (hd (tl r2) = CHR ''-'' \<or> hd (tl r2) = CHR ''+'') then tl (tl r2) else tl r2)"

definition exp_digits :: "string \<Rightarrow> string" where
  "exp_digits r2 = (if has_exp r2 then takeWhile is_digit (after_exp_sign r2) else [])"

definition after_exp :: "string \<Rightarrow> string" where
  "after_exp r2 = (if has_exp r2 then dropWhile is_digit (after_exp_sign r2) else r2)"

definition number_value :: "bool \<Rightarrow> string \<Rightarrow> string \<Rightarrow> bool \<Rightarrow> string \<Rightarrow> rat" where
  "number_value neg ip fd exp_neg ed =
     (let mantissa = (of_nat (digits_value ip) + of_nat (digits_value fd) / 10 ^ length fd :: rat);
          scaled = (if exp_neg then mantissa / 10 ^ digits_value ed
                    else mantissa * 10 ^ digits_value ed)
      in if neg then - scaled else scaled)"

definition parse_number :: "string \<Rightarrow> (rat \<times> string) option" where
  "parse_number cs =
     (let r0 = after_sign cs
      in if r0 = [] \<or> \<not> is_digit (hd r0) then None
         else
           (let r1 = after_int r0; r2 = after_frac r1
            in if (has_frac r1 \<and> frac_digits r1 = []) \<or> (has_exp r2 \<and> exp_digits r2 = [])
               then None
               else Some (number_value (r0 \<noteq> cs) (int_digits r0) (frac_digits r1)
                            (exp_negative r2) (exp_digits r2),
                          after_exp r2)))"

fun upsert :: "string \<Rightarrow> json \<Rightarrow> (string \<times> json) list \<Rightarrow> (string \<times> json) list" where
  "upsert k v [] = [(k, v)]"
| "upsert k v (p # ps) = (if fst p = k then (k, v) # ps else p # upsert k v ps)"

definition is_array_index :: "string \<Rightarrow> bool" where
  "is_array_index k =
     (k \<noteq> [] \<and> list_all is_digit k \<and> (k = ''0'' \<or> hd k \<noteq> CHR ''0'')
      \<and> digits_value k < 4294967295)"

definition js_object :: "(string \<times> json) list \<Rightarrow> (string \<times> json) list" where
  "js_object members =
     (let al = foldl (\<lambda>al p. upsert (fst p) (snd p) al) [] members
      in sort_key (\<lambda>p. digits_value (fst p)) (filter (\<lambda>p. is_array_index (fst p)) al)
         @ filter (\<lambda>p. \<not> is_array_index (fst p)) al)"

text \<open>
  Values, the elements of an array after its opening bracket, and the members of an
  object after its opening brace. The first argument bounds the nesting of calls;
  \<open>json_parse\<close> passes a bound that no text reaches.
\<close>

fun parse_value :: "nat \<Rightarrow> string \<Rightarrow> (json \<times> string) option"
  and parse_elements :: "nat \<Rightarrow> string \<Rightarrow> (json list \<times> string) option"
  and parse_members :: "nat \<Rightarrow> string \<Rightarrow> ((string \<times> json) list \<times> string) option" where
  "parse_value 0 cs = None"
| "parse_value (Suc n) cs =
     (case skip_ws cs of
        [] \<Rightarrow> None
      | c # r \<Rightarrow>
          if c = CHR ''{'' then
            (case skip_ws r of
               [] \<Rightarrow> None
             | d # r' \<Rightarrow>
                 if d = CHR ''}'' then Some (JObj [], r')
                 else map_option (\<lambda>p. (JObj (js_object (fst p)), snd p)) (parse_members n (d # r')))
          else if c = CHR ''['' then
            (case skip_ws r of
               [] \<Rightarrow> None
             | d # r' \<Rightarrow>
                 if d = CHR '']'' then Some (JArr [], r')
                 else map_option (\<lambda>p. (JArr (fst p), snd p)) (parse_elements n (d # r')))
          else if c = DQ then map_option (\<lambda>p. (JStr (fst p), snd p)) (parse_chars r)
          else if startsWith (c # r) ''true'' then Some (JBool True, drop 4 (c # r))
          else if startsWith (c # r) ''false'' then Some (JBool False, drop 5 (c # r))
          else if startsWith (c # r) ''null'' then Some (JNull, drop 4 (c # r))
          else map_option (\<lambda>p. (JNum (fst p), snd p)) (parse_number (c # r)))"
| "parse_elements 0 cs = None"
| "parse_elements (Suc n) cs =
     (case parse_value n cs of
        None \<Rightarrow> None
      | Some (v, r) \<Rightarrow>
          (case skip_ws r of
             [] \<Rightarrow> None
           | c # r' \<Rightarrow>
               if c = CHR '','' then map_option (\<lambda>p. (v # fst p, snd p)) (parse_elements n r')
               else if c = CHR '']'' then Some ([v], r')
               else None))"
| "parse_members 0 cs = None"
| "parse_members (Suc n) cs =
     (case skip_ws cs of
        [] \<Rightarrow> None
      | q # r \<Rightarrow>
          if q \<noteq> DQ then None
          else
            (case parse_chars r of
               None \<Rightarrow> None
             | Some (key, r1) \<Rightarrow>
                 (case skip_ws r1 of
                    [] \<Rightarrow> None
                  | colon # r2 \<Rightarrow>
                      if colon \<noteq> CHR '':'' then None
                      else
                        (case parse_value n r2 of
                           None \<Rightarrow> None
                         | Some (v, r3) \<Rightarrow>
                             (case skip_ws r3 of
                                [] \<Rightarrow> None
                              | c # r4 \<Rightarrow>
                                  if c = CHR '','' then
                                    map_option (\<lambda>p. ((key, v) # fst p, snd p)) (parse_members n r4)
                                  else if c = CHR ''}'' then Some ([(key, v)], r4)
                                  else None)))))"

definition json_parse :: "string \<Rightarrow> json option" where
  "json_parse s =
     (case parse_value (2 * length s + 2) s of
        None \<Rightarrow> None
      | Some (v, r) \<Rightarrow> if skip_ws r = [] then Some v else None)"


section \<open>A reference model of the digest\<close>

text \<open>
  SHA-256 (FIPS 180-4) on the bytes of a text, with the digest written as 64 lower-case
  hexadecimal digits, as \<^verbatim>\<open>createHash('sha256').update(input).digest('hex')\<close> gives it
  for text of 7-bit characters. Words of 32 bits are integers from 0 up to, not including, \<open>2^32\<close>.
\<close>

unbundle bit_operations_syntax

definition word32 :: "int \<Rightarrow> int" where
  "word32 x = x mod 4294967296"

definition rotr :: "nat \<Rightarrow> int \<Rightarrow> int" where
  "rotr n x = (x div 2 ^ n) + word32 (x * 2 ^ (32 - n))"

definition shr :: "nat \<Rightarrow> int \<Rightarrow> int" where
  "shr n x = x div 2 ^ n"

definition sha_ch :: "int \<Rightarrow> int \<Rightarrow> int \<Rightarrow> int" where
  "sha_ch x y z = (x AND y) XOR ((4294967295 - x) AND z)"

definition sha_maj :: "int \<Rightarrow> int \<Rightarrow> int \<Rightarrow> int" where
  "sha_maj x y z = (x AND y) XOR (x AND z) XOR (y AND z)"

definition big_sigma0 :: "int \<Rightarrow> int" where
  "big_sigma0 x = rotr 2 x XOR rotr 13 x XOR rotr 22 x"

definition big_sigma1 :: "int \<Rightarrow> int" where
  "big_sigma1 x = rotr 6 x XOR rotr 11 x XOR rotr 25 x"

definition small_sigma0 :: "int \<Rightarrow> int" where
  "small_sigma0 x = rotr 7 x XOR rotr 18 x XOR shr 3 x"

definition small_sigma1 :: "int \<Rightarrow> int" where
  "small_sigma1 x = rotr 17 x XOR rotr 19 x XOR shr 10 x"

text \<open>The round constants (from the cube roots of the first 64 primes) and the initial
  hash value (from the square roots of the first 8), in decimal.\<close>

definition sha_constants :: "int list" where
  "sha_constants =
     [1116352408, 1899447441, 3049323471, 3921009573, 961987163, 1508970993, 2453635748, 2870763221,
      3624381080, 310598401, 607225278, 1426881987, 1925078388, 2162078206, 2614888103, 3248222580,
      3835390401, 4022224774, 264347078, 604807628, 770255983, 1249150122, 1555081692, 1996064986,
      2554220882, 2821834349, 2952996808, 3210313671, 3336571891, 3584528711, 113926993, 338241895,
      666307205, 773529912, 1294757372, 1396182291, 1695183700, 1986661051, 2177026350, 2456956037,
      2730485921, 2820302411, 3259730800, 3345764771, 3516065817, 3600352804, 4094571909, 275423344,
      430227734, 506948616, 659060556, 883997877, 958139571, 1322822218, 1537002063, 1747873779,
      1955562222, 2024104815, 2227730452, 2361852424, 2428436474, 2756734187, 3204031479, 3329325298]"

definition sha_initial :: "int list" where
  "sha_initial =
     [1779033703, 3144134277, 1013904242, 2773480762, 1359893119, 2600822924, 528734635, 1541459225]"

text \<open>The number \<open>x\<close> as \<open>k\<close> bytes, most significant first.\<close>

fun big_endian :: "nat \<Rightarrow> int \<Rightarrow> int list" where
  "big_endian 0 x = []"
| "big_endian (Suc k) x = big_endian k (x div 256) @ [x mod 256]"

text \<open>The message followed by the byte \<open>0x80\<close>, zero bytes up to 56 modulo 64, and the
  length of the message in bits as 8 bytes.\<close>

definition sha_pad :: "int list \<Rightarrow> int list" where
  "sha_pad bytes =
     bytes @ [128] @ replicate ((119 - length bytes mod 64) mod 64) 0
       @ big_endian 8 (8 * int (length bytes))"

fun words_of :: "int list \<Rightarrow> int list" where
  "words_of (a # b # c # d # rest) = (((a * 256 + b) * 256 + c) * 256 + d) # words_of rest"
| "words_of rest = []"

text \<open>The message schedule: the 16 words of a block, extended by \<open>k\<close> words.\<close>

fun sha_schedule :: "nat \<Rightarrow> int list \<Rightarrow> int list" where
  "sha_schedule 0 w = w"
| "sha_schedule (Suc k) w =
     (let n = length w
      in sha_schedule k
           (w @ [word32 (small_sigma1 (w ! (n - 2)) + w ! (n - 7)
                          + small_sigma0 (w ! (n - 15)) + w ! (n - 16))]))"

text \<open>One round on the working variables \<open>a\<close> to \<open>h\<close>.\<close>

definition sha_round :: "int list \<Rightarrow> int \<times> int \<Rightarrow> int list" where
  "sha_round vars kw =
     (case vars of
        [a, b, c, d, e, f, g, h] \<Rightarrow>
          (let t1 = word32 (h + big_sigma1 e + sha_ch e f g + fst kw + snd kw);
               t2 = word32 (big_sigma0 a + sha_maj a b c)
           in [word32 (t1 + t2), a, b, c, word32 (d + t1), e, f, g])
      | _ \<Rightarrow> vars)"

definition sha_block :: "int list \<Rightarrow> int list \<Rightarrow> int list" where
  "sha_block hash block =
     (let w = sha_schedule 48 (words_of block);
          vars = foldl sha_round hash (zip sha_constants w)
      in map (\<lambda>p. word32 (fst p + snd p)) (zip hash vars))"

fun sha_blocks :: "nat \<Rightarrow> int list \<Rightarrow> int list \<Rightarrow> int list" where
  "sha_blocks 0 hash bytes = hash"
| "sha_blocks (Suc k) hash bytes = sha_blocks k (sha_block hash (take 64 bytes)) (drop 64 bytes)"

definition hex_byte :: "int \<Rightarrow> string" where
  "hex_byte b = [''0123456789abcdef'' ! nat (b div 16), ''0123456789abcdef'' ! nat (b mod 16)]"

definition sha256_hex :: "string \<Rightarrow> string" where
  "sha256_hex input =
     (let padded = sha_pad (map of_char input);
          hash = sha_blocks (length padded div 64) sha_initial padded
      in concat (map hex_byte (concat (map (big_endian 4) hash))))"


section \<open>Environments of the closed examples\<close>

text \<open>
  A network in which the first request is answered with status 503, later requests
  time out, and only the third fallback endpoint answers with status 200.
\<close>

definition third_only :: "nat \<Rightarrow> string \<Rightarrow> fetch_outcome" where
  "third_only k url =
     (if url = ''https://cloudcode-pa.googleapis.com/v1internal:streamGenerateContent?alt=sse''
      then FetchResponse \<lparr>status = 200, has_body = True, body_text = None\<rparr>
      else if k = 0 then FetchResponse \<lparr>status = 503, has_body = True, body_text = Some ''busy''\<rparr>
      else FetchThrows ''connect timeout'')"





text \<open>The text \<^verbatim>\<open>[{"a":1},{"b":2\<close>, cut off inside its second element, and the text
  \<^verbatim>\<open>[{"a":1}] and more\<close>, a complete array followed by other text.\<close>

definition truncated_array :: string where
  "truncated_array =
     ''[{'' @ [DQ] @ ''a'' @ [DQ] @ '':1},{'' @ [DQ] @ ''b'' @ [DQ] @ '':2''"

definition array_with_tail :: string where
  "array_with_tail = ''[{'' @ [DQ] @ ''a'' @ [DQ] @ '':1}] and more''"




chapter \<open>Theorems\<close>

section \<open>Tool-name sanitization\<close>

lemma sanitize_digit:
  "starts_with_digit name \<Longrightarrow>
     sanitizeToolNameForGemini m name = (''t_'' @ name, m(''t_'' @ name \<mapsto> name))"
  by (simp add: sanitizeToolNameForGemini_def Let_def)

lemma sanitize_no_digit:
  "\<not> starts_with_digit name \<Longrightarrow> sanitizeToolNameForGemini m name = (name, m)"
  by (simp add: sanitizeToolNameForGemini_def)

text \<open>
  C7 (as stated, refuted). The map is shared by all names: once \<open>1abc\<close> has been
  sanitized to \<open>t_1abc\<close>, the unrelated name \<open>t_1abc\<close>, which needs no sanitization,
  resolves to \<open>1abc\<close> and not to itself.
\<close>

theorem sanitize_roundtrip_counterexample:
  "sanitize_then_resolve (snd (sanitizeToolNameForGemini Map.empty ''1abc'')) ''t_1abc'' = ''1abc''
   \<and> sanitize_then_resolve (snd (sanitizeToolNameForGemini Map.empty ''1abc'')) ''t_1abc'' \<noteq> ''t_1abc''"
  by (simp add: sanitize_then_resolve_def sanitizeToolNameForGemini_def
      resolveOriginalToolName_def starts_with_digit_def Let_def)

text \<open>
  C7 (amended). For a name that starts with a digit, in every state of the map,
  sanitization returns the name prefixed with \<open>t_\<close>, records the mapping from the
  prefixed name to the original, and the reverse lookup returns the original. For a
  name that does not start with a digit, sanitization is the identity and records
  nothing, and the reverse lookup returns the name whenever the map holds no entry
  under that name (as in a fresh process).
\<close>

theorem sanitize_roundtrip:
  "(starts_with_digit name \<longrightarrow>
      fst (sanitizeToolNameForGemini m name) = ''t_'' @ name
      \<and> snd (sanitizeToolNameForGemini m name) (''t_'' @ name) = Some name
      \<and> sanitize_then_resolve m name = name)
   \<and> (\<not> starts_with_digit name \<longrightarrow>
      sanitizeToolNameForGemini m name = (name, m)
      \<and> (m name = None \<longrightarrow> sanitize_then_resolve m name = name))"
  by (simp add: sanitize_then_resolve_def sanitize_digit sanitize_no_digit
      resolveOriginalToolName_def)

theorem sanitize_roundtrip_witness:
  "starts_with_digit ''1abc''
   \<and> fst (sanitizeToolNameForGemini Map.empty ''1abc'') = ''t_1abc''
   \<and> sanitize_then_resolve Map.empty ''1abc'' = ''1abc''
   \<and> \<not> starts_with_digit ''read_file''
   \<and> (Map.empty :: name_map) ''read_file'' = None
   \<and> sanitize_then_resolve Map.empty ''read_file'' = ''read_file''"
  using sanitize_roundtrip [of "''1abc''" Map.empty]
    sanitize_roundtrip [of "''read_file''" Map.empty]
  by (simp add: starts_with_digit_def)

section \<open>Thinking configuration\<close>

text \<open>
  C2 (as stated, refuted). With the level representation selected and a thinking
  setting that is enabled but names no effort, the emitted object holds neither
  \<open>thinkingLevel\<close> nor \<open>thinkingBudget\<close>: the budget key is deleted and no level was set.
\<close>

theorem thinking_config_counterexample:
  "buildThinkingConfigForAntigravity
     (Some \<lparr>thinking_type = ''enabled'', effort = None, budgetTokens = Some 1024\<rparr>) True
   = Some [''includeThoughts'' \<mapsto> CBool True]
   \<and> [''includeThoughts'' \<mapsto> CBool True] ''thinkingLevel'' = None
   \<and> [''includeThoughts'' \<mapsto> CBool True] ''thinkingBudget'' = None"
  by (simp add: buildThinkingConfigForAntigravity_def thinking_off_def Let_def fun_eq_iff)

text \<open>
  C2 (amended). For every thinking setting the emitted object never holds both keys.
  Under the budget representation it holds \<open>thinkingBudget\<close> and not \<open>thinkingLevel\<close>:
  0 when thinking is off (type \<open>disabled\<close> or effort \<open>none\<close>), else the explicit
  \<open>budgetTokens\<close>, else -1. Under the level representation it holds no
  \<open>thinkingBudget\<close>, and it holds \<open>thinkingLevel\<close> exactly when thinking is off (level
  \<open>minimal\<close>) or an effort is set (the mapped level); effort \<open>xhigh\<close> maps to \<open>high\<close>
  and effort \<open>none\<close> to \<open>minimal\<close>.
\<close>

theorem thinking_config_exclusive:
  "(\<exists>out. buildThinkingConfigForAntigravity (Some t) useThinkingLevel = Some out
     \<and> \<not> (out ''thinkingLevel'' \<noteq> None \<and> out ''thinkingBudget'' \<noteq> None)
     \<and> (useThinkingLevel \<longrightarrow>
          out ''thinkingBudget'' = None
          \<and> out ''thinkingLevel'' =
              (if thinking_off t then Some (CStr ''minimal'')
               else map_option (\<lambda>e. CStr (mapThinkingEffortToLevelString e)) (effort t)))
     \<and> (\<not> useThinkingLevel \<longrightarrow>
          out ''thinkingLevel'' = None
          \<and> out ''thinkingBudget'' =
              Some (CNum (if thinking_off t then 0
                          else (case budgetTokens t of Some b \<Rightarrow> b | None \<Rightarrow> - 1)))))
   \<and> mapThinkingEffortToLevelString XHigh = ''high''
   \<and> mapThinkingEffortToLevelString NoEffort = ''minimal''"
proof -
  have levels: "mapThinkingEffortToLevelString XHigh = ''high''"
    "mapThinkingEffortToLevelString NoEffort = ''minimal''"
    by (simp_all add: mapThinkingEffortToLevelString_def)
  show ?thesis
  proof (cases "thinking_off t")
    case True
    then show ?thesis
      using levels by (cases useThinkingLevel) (simp_all add: buildThinkingConfigForAntigravity_def)
  next
    case False
    then show ?thesis
      using levels
      by (cases useThinkingLevel)
        (auto simp add: buildThinkingConfigForAntigravity_def Let_def split: option.splits)
  qed
qed

theorem thinking_config_exclusive_witness:
  "(\<exists>out. buildThinkingConfigForAntigravity
            (Some \<lparr>thinking_type = ''enabled'', effort = Some XHigh, budgetTokens = Some 2048\<rparr>) True
          = Some out
        \<and> out ''thinkingBudget'' = None \<and> out ''thinkingLevel'' = Some (CStr ''high''))
   \<and> (\<exists>out. buildThinkingConfigForAntigravity
            (Some \<lparr>thinking_type = ''enabled'', effort = Some XHigh, budgetTokens = Some 2048\<rparr>) False
          = Some out
        \<and> out ''thinkingLevel'' = None \<and> out ''thinkingBudget'' = Some (CNum 2048))
   \<and> (\<exists>out. buildThinkingConfigForAntigravity
            (Some \<lparr>thinking_type = ''disabled'', effort = None, budgetTokens = None\<rparr>) False
          = Some out
        \<and> out ''thinkingLevel'' = None \<and> out ''thinkingBudget'' = Some (CNum 0))"
  using thinking_config_exclusive
      [of "\<lparr>thinking_type = ''enabled'', effort = Some XHigh, budgetTokens = Some 2048\<rparr>" True]
    thinking_config_exclusive
      [of "\<lparr>thinking_type = ''enabled'', effort = Some XHigh, budgetTokens = Some 2048\<rparr>" False]
    thinking_config_exclusive
      [of "\<lparr>thinking_type = ''disabled'', effort = None, budgetTokens = None\<rparr>" False]
  by (auto simp add: thinking_off_def)

section \<open>Thought signature cache\<close>

lemma separator_unique:
  assumes "c \<notin> set a" "c \<notin> set b" "a @ c # x = b @ c # y"
  shows "a = b \<and> x = y"
proof -
  have tw: "takeWhile (\<lambda>z. z \<noteq> c) (u @ c # v) = u" if "c \<notin> set u" for u v
    using that by (induction u) auto
  have "takeWhile (\<lambda>z. z \<noteq> c) (a @ c # x) = a" using assms(1) by (rule tw)
  moreover have "takeWhile (\<lambda>z. z \<noteq> c) (b @ c # y) = b" using assms(2) by (rule tw)
  ultimately have "a = b" using assms(3) by simp
  with assms(3) show ?thesis by simp
qed

lemma family_string_no_colon: "CHR '':'' \<notin> set (family_string f)"
  by (cases f) (simp_all add: family_string_def)

lemma key_input_distinct:
  assumes "CHR '':'' \<notin> set s1" "CHR '':'' \<notin> set s2" "s1 \<noteq> s2"
  shows "signature_key_input f1 s1 t1 \<noteq> signature_key_input f2 s2 t2"
proof
  assume eq: "signature_key_input f1 s1 t1 = signature_key_input f2 s2 t2"
  then have "family_string f1 @ CHR '':'' # (s1 @ '':'' @ js_trim t1)
           = family_string f2 @ CHR '':'' # (s2 @ '':'' @ js_trim t2)"
    by (simp add: signature_key_input_def normalizeThoughtText_def)
  then have "s1 @ CHR '':'' # js_trim t1 = s2 @ CHR '':'' # js_trim t2"
    using separator_unique [OF family_string_no_colon family_string_no_colon] by fastforce
  then have "s1 = s2" using separator_unique [OF assms(1) assms(2)] by blast
  with assms(3) show False by simp
qed

text \<open>
  C8 (as stated, refuted). The hashed text joins family, session id and reasoning text
  with \<open>:\<close> and escapes nothing, so the distinct session ids \<open>a:b\<close> and \<open>a\<close> meet in the
  same text \<open>claude:a:b:c\<close>: a signature recorded under session \<open>a:b\<close> (text \<open>c\<close>) is
  returned by a lookup under session \<open>a\<close> (text \<open>b:c\<close>), for which nothing was recorded,
  whatever the digest function is.
\<close>

theorem thought_signature_counterexample:
  "\<forall>digest. getCachedThoughtSignature digest
       (cacheThoughtSignature digest Map.empty Claude ''a:b'' ''c'' ''sig-A'') Claude ''a'' ''b:c''
     = Some ''sig-A''"
  by (simp add: getCachedThoughtSignature_def cacheThoughtSignature_def getSignatureKey_def
      signature_key_input_def normalizeThoughtText_def js_trim_def js_whitespace_def family_string_def)

text \<open>
  C8 (amended). Recording \<open>sig-A\<close> under \<open>(claude, s1, thinking...)\<close> and looking the
  same triple up returns \<open>sig-A\<close>, in every state of the cache. The cache key is the
  digest of \<open>family:session:trimmed-text\<close>. For session ids that contain no \<open>:\<close>,
  distinct session ids give distinct digest inputs, whatever the families and texts;
  and a lookup in a cache that holds only one recorded signature returns undefined
  whenever the digest of the lookup's input differs from the digest of the recorded
  input.
\<close>

theorem thought_signature_lookup:
  "getCachedThoughtSignature digest
       (cacheThoughtSignature digest cache Claude ''s1'' ''thinking...'' ''sig-A'')
       Claude ''s1'' ''thinking...'' = Some ''sig-A''
   \<and> getSignatureKey digest fam s t = digest (family_string fam @ '':'' @ s @ '':'' @ js_trim t)
   \<and> (CHR '':'' \<notin> set s1 \<and> CHR '':'' \<notin> set s2 \<and> s1 \<noteq> s2
        \<longrightarrow> signature_key_input f1 s1 t1 \<noteq> signature_key_input f2 s2 t2)
   \<and> (digest (signature_key_input f1 s1 t1) \<noteq> digest (signature_key_input f2 s2 t2)
        \<longrightarrow> getCachedThoughtSignature digest
              (cacheThoughtSignature digest Map.empty f1 s1 t1 signature) f2 s2 t2 = None)"
proof (intro conjI impI)
  show "getCachedThoughtSignature digest
       (cacheThoughtSignature digest cache Claude ''s1'' ''thinking...'' ''sig-A'')
       Claude ''s1'' ''thinking...'' = Some ''sig-A''"
    by (simp add: getCachedThoughtSignature_def cacheThoughtSignature_def)
  show "getSignatureKey digest fam s t = digest (family_string fam @ '':'' @ s @ '':'' @ js_trim t)"
    by (simp add: getSignatureKey_def signature_key_input_def normalizeThoughtText_def)
next
  assume "CHR '':'' \<notin> set s1 \<and> CHR '':'' \<notin> set s2 \<and> s1 \<noteq> s2"
  then show "signature_key_input f1 s1 t1 \<noteq> signature_key_input f2 s2 t2"
    by (simp add: key_input_distinct)
next
  assume "digest (signature_key_input f1 s1 t1) \<noteq> digest (signature_key_input f2 s2 t2)"
  then show "getCachedThoughtSignature digest
              (cacheThoughtSignature digest Map.empty f1 s1 t1 signature) f2 s2 t2 = None"
    by (simp add: getCachedThoughtSignature_def cacheThoughtSignature_def getSignatureKey_def)
qed

text \<open>The reference model of the digest on the test vector \<open>abc\<close> of FIPS 180-4.\<close>

lemma sha256_hex_abc:
  "sha256_hex ''abc'' = ''ba7816bf8f01cfea414140de5dae2223b00361a396177a9cb410ff61f20015ad''"
  by code_simp

text \<open>With SHA-256 as the digest: a signature recorded under session \<open>s1\<close> is found
  under \<open>s1\<close> and not under \<open>s2\<close>.\<close>

theorem thought_signature_lookup_witness:
  "getCachedThoughtSignature sha256_hex
       (cacheThoughtSignature sha256_hex Map.empty Claude ''s1'' ''thinking...'' ''sig-A'')
       Claude ''s1'' ''thinking...'' = Some ''sig-A''
   \<and> getSignatureKey sha256_hex Claude ''s1'' ''thinking...''
       = ''6036c141fdbf3935bd43f9097975ac13a568f6fd8523aad92e0ebbb2d3dd4a1a''
   \<and> CHR '':'' \<notin> set ''s1'' \<and> CHR '':'' \<notin> set ''s2'' \<and> ''s1'' \<noteq> ''s2''
   \<and> signature_key_input Claude ''s1'' ''thinking...'' \<noteq> signature_key_input Claude ''s2'' ''thinking...''
   \<and> getCachedThoughtSignature sha256_hex
       (cacheThoughtSignature sha256_hex Map.empty Claude ''s1'' ''thinking...'' ''sig-A'')
       Claude ''s2'' ''thinking...'' = None"
proof -
  have key: "sha256_hex (family_string Claude @ '':'' @ ''s1'' @ '':'' @ js_trim ''thinking...'')
      = ''6036c141fdbf3935bd43f9097975ac13a568f6fd8523aad92e0ebbb2d3dd4a1a''"
    by code_simp
  have differ: "sha256_hex (signature_key_input Claude ''s1'' ''thinking...'')
      \<noteq> sha256_hex (signature_key_input Claude ''s2'' ''thinking...'')"
    by code_simp
  show ?thesis
    using thought_signature_lookup [where digest = sha256_hex and cache = Map.empty
        and ?s1.0 = "''s1''" and ?s2.0 = "''s2''" and ?f1.0 = Claude and ?f2.0 = Claude
        and ?t1.0 = "''thinking...''" and ?t2.0 = "''thinking...''" and signature = "''sig-A''"
        and fam = Claude and s = "''s1''" and t = "''thinking...''"]
      key differ
    by simp
qed

section \<open>Endpoint fallback\<close>

lemma try_endpoints_failed_step:
  assumes "attempt_failed streaming (fetch (length (requests st)) (endpoint_of streaming b))"
  shows "try_endpoints fetch fe streaming (b # rest) st =
         try_endpoints fetch fe streaming rest
           (st\<lparr>requests := requests st @ [endpoint_of streaming b],
               lastError := Some (attempt_error fe (fetch (length (requests st)) (endpoint_of streaming b)))\<rparr>)"
  using assms
  by (simp add: attempt_failed_def Let_def split: fetch_outcome.splits)

lemma try_endpoints_success_step:
  assumes "fetch (length (requests st)) (endpoint_of streaming b) = FetchResponse r"
    and "attempt_succeeds streaming r"
  shows "try_endpoints fetch fe streaming (b # rest) st =
         st\<lparr>requests := requests st @ [endpoint_of streaming b], response := Some r\<rparr>"
  using assms by (simp add: Let_def)

text \<open>The loop over a prefix of failing endpoints: every one is requested, in order, and
  the last one's error is what \<open>lastError\<close> holds afterwards.\<close>

lemma try_endpoints_failed_prefix:
  assumes "\<forall>i < length pre.
             attempt_failed streaming (fetch (length (requests st) + i) (endpoint_of streaming (pre ! i)))"
  shows "try_endpoints fetch fe streaming (pre @ rest) st =
         try_endpoints fetch fe streaming rest
           (st\<lparr>requests := requests st @ map (endpoint_of streaming) pre,
               lastError :=
                 (if pre = [] then lastError st
                  else Some (attempt_error fe
                         (fetch (length (requests st) + length pre - 1)
                            (endpoint_of streaming (last pre)))))\<rparr>)"
  using assms
proof (induction pre arbitrary: st)
  case Nil
  then show ?case by simp
next
  case (Cons b pre)
  let ?st1 = "st\<lparr>requests := requests st @ [endpoint_of streaming b],
               lastError := Some (attempt_error fe (fetch (length (requests st)) (endpoint_of streaming b)))\<rparr>"
  from Cons.prems have first: "attempt_failed streaming (fetch (length (requests st)) (endpoint_of streaming b))"
    by fastforce
  have later: "\<forall>i < length pre.
      attempt_failed streaming (fetch (length (requests ?st1) + i) (endpoint_of streaming (pre ! i)))"
  proof (intro allI impI)
    fix i assume "i < length pre"
    then have "Suc i < length (b # pre)" by simp
    with Cons.prems have "attempt_failed streaming
        (fetch (length (requests st) + Suc i) (endpoint_of streaming ((b # pre) ! Suc i)))"
      by blast
    then show "attempt_failed streaming (fetch (length (requests ?st1) + i) (endpoint_of streaming (pre ! i)))"
      by simp
  qed
  have "try_endpoints fetch fe streaming ((b # pre) @ rest) st
        = try_endpoints fetch fe streaming (pre @ rest) ?st1"
    using first by (simp add: try_endpoints_failed_step del: try_endpoints.simps)
  also have "\<dots> = try_endpoints fetch fe streaming rest
           (?st1\<lparr>requests := requests ?st1 @ map (endpoint_of streaming) pre,
               lastError :=
                 (if pre = [] then lastError ?st1
                  else Some (attempt_error fe
                         (fetch (length (requests ?st1) + length pre - 1)
                            (endpoint_of streaming (last pre)))))\<rparr>)"
    using later by (rule Cons.IH)
  finally show ?case by (cases "pre = []") simp_all
qed

lemma fallback_first_success:
  assumes fails: "\<forall>i < length pre. attempt_failed streaming (fetch i (endpoint_of streaming (pre ! i)))"
    and resp: "fetch (length pre) (endpoint_of streaming e) = FetchResponse r"
    and ok: "attempt_succeeds streaming r"
  shows "try_endpoints fetch fe streaming (pre @ e # post) initial_fallback_state =
           \<lparr>response = Some r,
            lastError = (if pre = [] then None
                         else Some (attempt_error fe
                                (fetch (length pre - 1) (endpoint_of streaming (last pre))))),
            requests = map (endpoint_of streaming) (pre @ [e])\<rparr>"
proof -
  let ?st = "initial_fallback_state\<lparr>requests := map (endpoint_of streaming) pre,
       lastError := (if pre = [] then None
                     else Some (attempt_error fe
                            (fetch (length pre - 1) (endpoint_of streaming (last pre)))))\<rparr>"
  have "try_endpoints fetch fe streaming (pre @ e # post) initial_fallback_state
        = try_endpoints fetch fe streaming (e # post) ?st"
    using fails try_endpoints_failed_prefix [where pre = pre and st = initial_fallback_state
        and streaming = streaming and fetch = fetch and fe = fe and rest = "e # post"]
    by (simp add: initial_fallback_state_def)
  also have "\<dots> = ?st\<lparr>requests := requests ?st @ [endpoint_of streaming e], response := Some r\<rparr>"
    using resp ok by (intro try_endpoints_success_step) simp_all
  finally show ?thesis by (simp add: initial_fallback_state_def)
qed

lemma fallback_all_fail:
  assumes fails: "\<forall>i < length eps. attempt_failed streaming (fetch i (endpoint_of streaming (eps ! i)))"
  shows "try_endpoints fetch fe streaming eps initial_fallback_state =
           \<lparr>response = None,
            lastError = (if eps = [] then None
                         else Some (attempt_error fe
                                (fetch (length eps - 1) (endpoint_of streaming (last eps))))),
            requests = map (endpoint_of streaming) eps\<rparr>"
  using fails try_endpoints_failed_prefix [where pre = eps and st = initial_fallback_state
        and streaming = streaming and fetch = fetch and fe = fe and rest = "[]"]
  by (simp add: initial_fallback_state_def)

text \<open>
  C4. The base endpoints are requested in list order. If the attempts at the endpoints
  of \<open>pre\<close> all fail and the attempt at the next endpoint \<open>e\<close> returns a response with a
  2xx status (and, when streaming, a body), the call continues with that response,
  exactly the endpoints of \<open>pre\<close> and then \<open>e\<close> were requested, none after \<open>e\<close>, and
  \<open>lastError\<close> holds the error of the last failed attempt. If the attempts at all
  endpoints fail, every endpoint was requested in order and the call fails with
  \<open>Antigravity request failed:\<close> followed by the error of the last attempt (\<open>Unknown
  error\<close> for an empty list). A failed attempt records the thrown message, or \<open>HTTP\<close>,
  the status and the formatted body, trimmed.
\<close>

theorem endpoint_fallback:
  "((\<forall>i < length pre. attempt_failed streaming (fetch i (endpoint_of streaming (pre ! i))))
      \<and> fetch (length pre) (endpoint_of streaming e) = FetchResponse r
      \<and> attempt_succeeds streaming r
    \<longrightarrow> request_with_fallback fetch fe streaming (pre @ e # post) = Inr r
        \<and> requests (try_endpoints fetch fe streaming (pre @ e # post) initial_fallback_state)
            = map (endpoint_of streaming) (pre @ [e])
        \<and> lastError (try_endpoints fetch fe streaming (pre @ e # post) initial_fallback_state)
            = (if pre = [] then None
               else Some (attempt_error fe (fetch (length pre - 1) (endpoint_of streaming (last pre))))))
   \<and> ((\<forall>i < length eps. attempt_failed streaming (fetch i (endpoint_of streaming (eps ! i))))
    \<longrightarrow> request_with_fallback fetch fe streaming eps
          = Inl (''Antigravity request failed: '' @
                 (if eps = [] then ''Unknown error''
                  else attempt_error fe (fetch (length eps - 1) (endpoint_of streaming (last eps)))))
        \<and> requests (try_endpoints fetch fe streaming eps initial_fallback_state)
            = map (endpoint_of streaming) eps)
   \<and> attempt_succeeds streaming r = (200 \<le> status r \<and> status r \<le> 299 \<and> (streaming \<longrightarrow> has_body r))
   \<and> attempt_failed streaming (FetchThrows msg)
   \<and> attempt_failed streaming (FetchResponse r) = (\<not> attempt_succeeds streaming r)
   \<and> attempt_error fe (FetchThrows msg) = msg
   \<and> attempt_error fe (FetchResponse r)
       = js_trim (''HTTP '' @ decimal (status r) @ '' '' @
                  fe (status r) (case body_text r of Some t \<Rightarrow> t | None \<Rightarrow> []))"
proof (intro conjI impI)
  assume h: "(\<forall>i < length pre. attempt_failed streaming (fetch i (endpoint_of streaming (pre ! i))))
      \<and> fetch (length pre) (endpoint_of streaming e) = FetchResponse r
      \<and> attempt_succeeds streaming r"
  then have st: "try_endpoints fetch fe streaming (pre @ e # post) initial_fallback_state =
           \<lparr>response = Some r,
            lastError = (if pre = [] then None
                         else Some (attempt_error fe
                                (fetch (length pre - 1) (endpoint_of streaming (last pre))))),
            requests = map (endpoint_of streaming) (pre @ [e])\<rparr>"
    by (intro fallback_first_success) simp_all
  show "request_with_fallback fetch fe streaming (pre @ e # post) = Inr r"
    by (simp add: request_with_fallback_def st)
  show "requests (try_endpoints fetch fe streaming (pre @ e # post) initial_fallback_state)
            = map (endpoint_of streaming) (pre @ [e])"
    by (simp add: st)
  show "lastError (try_endpoints fetch fe streaming (pre @ e # post) initial_fallback_state)
            = (if pre = [] then None
               else Some (attempt_error fe (fetch (length pre - 1) (endpoint_of streaming (last pre)))))"
    by (simp add: st)
next
  assume h: "\<forall>i < length eps. attempt_failed streaming (fetch i (endpoint_of streaming (eps ! i)))"
  have st: "try_endpoints fetch fe streaming eps initial_fallback_state =
           \<lparr>response = None,
            lastError = (if eps = [] then None
                         else Some (attempt_error fe
                                (fetch (length eps - 1) (endpoint_of streaming (last eps))))),
            requests = map (endpoint_of streaming) eps\<rparr>"
    using h by (rule fallback_all_fail)
  show "request_with_fallback fetch fe streaming eps
          = Inl (''Antigravity request failed: '' @
                 (if eps = [] then ''Unknown error''
                  else attempt_error fe (fetch (length eps - 1) (endpoint_of streaming (last eps)))))"
    by (simp add: request_with_fallback_def st)
  show "requests (try_endpoints fetch fe streaming eps initial_fallback_state)
            = map (endpoint_of streaming) eps"
    by (simp add: st)
qed (auto simp add: attempt_succeeds_def response_ok_def attempt_failed_def attempt_error_def Let_def)

text \<open>The three configured endpoints, of which only the third answers 2xx: the result
  is the third endpoint's response, after two recorded failures.\<close>

theorem endpoint_fallback_witness:
  "request_with_fallback third_only (\<lambda>s t. t) True CODE_ASSIST_ENDPOINT_FALLBACKS
     = Inr \<lparr>status = 200, has_body = True, body_text = None\<rparr>
   \<and> requests (try_endpoints third_only (\<lambda>s t. t) True CODE_ASSIST_ENDPOINT_FALLBACKS initial_fallback_state)
     = map (endpoint_of True) CODE_ASSIST_ENDPOINT_FALLBACKS
   \<and> lastError (try_endpoints third_only (\<lambda>s t. t) True CODE_ASSIST_ENDPOINT_FALLBACKS initial_fallback_state)
     = Some ''connect timeout''
   \<and> request_with_fallback third_only (\<lambda>s t. t) True (take 2 CODE_ASSIST_ENDPOINT_FALLBACKS)
     = Inl ''Antigravity request failed: connect timeout''
   \<and> request_with_fallback third_only (\<lambda>s t. t) True (take 1 CODE_ASSIST_ENDPOINT_FALLBACKS)
     = Inl ''Antigravity request failed: HTTP 503 busy''"
  using endpoint_fallback [where pre = "take 2 CODE_ASSIST_ENDPOINT_FALLBACKS" and streaming = True
      and fetch = third_only and e = "''https://cloudcode-pa.googleapis.com''"
      and r = "\<lparr>status = 200, has_body = True, body_text = None\<rparr>"
      and fe = "\<lambda>s t. t" and post = "[]" and eps = "take 2 CODE_ASSIST_ENDPOINT_FALLBACKS"]
    endpoint_fallback [where pre = "[]" and streaming = True
      and fetch = third_only and e = "''https://cloudcode-pa.googleapis.com''"
      and r = "\<lparr>status = 200, has_body = True, body_text = None\<rparr>"
      and fe = "\<lambda>s t. t" and post = "[]" and eps = "take 1 CODE_ASSIST_ENDPOINT_FALLBACKS"]
  by (simp add: CODE_ASSIST_ENDPOINT_FALLBACKS_def third_only_def endpoint_of_def endpoint_path_def
      attempt_failed_def attempt_succeeds_def response_ok_def attempt_error_def js_trim_def
      js_whitespace_def less_Suc_eq numeral_2_eq_2 Let_def)

section \<open>Server-sent events\<close>

lemma find_boundary_append:
  "find_boundary b = Some p \<Longrightarrow> find_boundary (b @ c) = Some p"
  by (induction b arbitrary: p rule: find_boundary.induct) (auto split: if_splits)

lemma drain_None: "find_boundary b = None \<Longrightarrow> drain num b = ([], b)"
  by (simp add: drain.simps)

lemma drain_Some:
  "find_boundary b = Some p \<Longrightarrow>
   drain num b =
     (case parse_frame num (take p b) of
        None \<Rightarrow> drain num (drop (p + 2) b)
      | Some e \<Rightarrow> (e # fst (drain num (drop (p + 2) b)), snd (drain num (drop (p + 2) b))))"
  by (subst drain.simps) (simp add: Let_def split: option.splits)

lemma drain_rest_no_boundary: "find_boundary (snd (drain num b)) = None"
proof (induction num b rule: drain.induct)
  case (1 num buffer)
  show ?case
  proof (cases "find_boundary buffer")
    case None
    then show ?thesis by (simp add: drain_None)
  next
    case (Some p)
    with "1.IH" [OF Some refl] show ?thesis
      by (simp add: drain_Some split: option.splits)
  qed
qed

lemma drain_append:
  "drain num (b @ c) =
     (fst (drain num b) @ fst (drain num (snd (drain num b) @ c)),
      snd (drain num (snd (drain num b) @ c)))"
proof (induction num b rule: drain.induct)
  case (1 num buffer)
  show ?case
  proof (cases "find_boundary buffer")
    case None
    then show ?thesis by (simp add: drain_None)
  next
    case (Some p)
    then have len: "p + 2 \<le> length buffer" by (rule find_boundary_bound)
    have app: "find_boundary (buffer @ c) = Some p" using Some by (rule find_boundary_append)
    have ih: "drain num (drop (p + 2) buffer @ c) =
      (fst (drain num (drop (p + 2) buffer)) @ fst (drain num (snd (drain num (drop (p + 2) buffer)) @ c)),
       snd (drain num (snd (drain num (drop (p + 2) buffer)) @ c)))"
      using "1.IH" [OF Some refl] .
    have lhs: "drain num (buffer @ c) =
        (case parse_frame num (take p buffer) of
           None \<Rightarrow> drain num (drop (p + 2) buffer @ c)
         | Some e \<Rightarrow> (e # fst (drain num (drop (p + 2) buffer @ c)),
                        snd (drain num (drop (p + 2) buffer @ c))))"
      using len by (simp add: drain_Some [OF app] split: option.splits)
    show ?thesis
      using ih
      by (subst lhs, subst drain_Some [OF Some], subst drain_Some [OF Some], subst drain_Some [OF Some])
         (simp split: option.splits)
  qed
qed


lemma decode_chunk_append:
  "decode_chunk step d (a @ b) =
     (fst (decode_chunk step (fst (decode_chunk step d a)) b),
      snd (decode_chunk step d a) @ snd (decode_chunk step (fst (decode_chunk step d a)) b))"
  by (induction a arbitrary: d) (simp_all add: Let_def)

lemma sse_loop_chunks:
  "sse_loop step num d buffer (map Chunk chunks) =
     (if chunks = [] then [] else fst (drain num (buffer @ snd (decode_chunk step d (concat chunks)))),
      Completed)"
proof (induction chunks arbitrary: d buffer)
  case Nil
  then show ?case by simp
next
  case (Cons c cs)
  let ?dec = "decode_chunk step d c"
  let ?dr = "drain num (buffer @ snd ?dec)"
  have step: "sse_loop step num d buffer (Chunk c # map Chunk cs) =
      (fst ?dr @ fst (sse_loop step num (fst ?dec) (snd ?dr) (map Chunk cs)),
       snd (sse_loop step num (fst ?dec) (snd ?dr) (map Chunk cs)))"
    by (simp add: Let_def)
  show ?case
  proof (cases "cs = []")
    case True
    then show ?thesis by (simp add: Let_def)
  next
    case False
    have "fst ?dr @ fst (drain num (snd ?dr @ snd (decode_chunk step (fst ?dec) (concat cs))))
          = fst (drain num ((buffer @ snd ?dec) @ snd (decode_chunk step (fst ?dec) (concat cs))))"
      by (subst (3) drain_append) simp
    then show ?thesis
      using False by (simp add: step Cons.IH decode_chunk_append del: sse_loop.simps)
  qed
qed

text \<open>
  C3. For every input and every way of cutting it into chunks, the events yielded, and
  the way the generator ends, are those of the whole input delivered as one chunk.
  This holds for every byte-wise decoder and every reading of numbers.
\<close>

theorem sse_chunk_independence:
  "parseSseStream step d0 num (map Chunk chunks) = parseSseStream step d0 num [Chunk (concat chunks)]"
proof (cases "chunks = []")
  case True
  then show ?thesis by (simp add: parseSseStream_def Let_def drain_None)
next
  case False
  then show ?thesis
    using sse_loop_chunks [of step num d0 "[]" chunks] sse_loop_chunks [of step num d0 "[]" "[concat chunks]"]
    by (simp add: parseSseStream_def del: sse_loop.simps)
qed

theorem sse_chunk_independence_witness:
  "parseSseStream seven_bit () (\<lambda>v. None :: nat option)
       (map Chunk [''data: a'' @ [LF], LF # ''data: b'' @ [LF, LF]])
     = parseSseStream seven_bit () (\<lambda>v. None)
       [Chunk (concat [''data: a'' @ [LF], LF # ''data: b'' @ [LF, LF]])]
   \<and> parseSseStream seven_bit () (\<lambda>v. None :: nat option)
       [Chunk (concat [''data: a'' @ [LF], LF # ''data: b'' @ [LF, LF]])]
     = ([\<lparr>data = ''a'', event = None, event_id = None, retry = None\<rparr>,
         \<lparr>data = ''b'', event = None, event_id = None, retry = None\<rparr>], Completed)"
proof
  show "parseSseStream seven_bit () (\<lambda>v. None :: nat option)
       (map Chunk [''data: a'' @ [LF], LF # ''data: b'' @ [LF, LF]])
     = parseSseStream seven_bit () (\<lambda>v. None)
       [Chunk (concat [''data: a'' @ [LF], LF # ''data: b'' @ [LF, LF]])]"
    by (rule sse_chunk_independence)
  show "parseSseStream seven_bit () (\<lambda>v. None :: nat option)
       [Chunk (concat [''data: a'' @ [LF], LF # ''data: b'' @ [LF, LF]])]
     = ([\<lparr>data = ''a'', event = None, event_id = None, retry = None\<rparr>,
         \<lparr>data = ''b'', event = None, event_id = None, retry = None\<rparr>], Completed)"
    by (simp add: parseSseStream_def seven_bit_def drain.simps LF_def parse_frame_def
        process_line_def empty_fields_def extend_first_def Let_def)
qed

lemma decode_seven_bit: "decode_chunk seven_bit u bs = (u, bs)"
  by (induction bs) (simp_all add: seven_bit_def)

lemma CR_not_LF: "CR \<noteq> LF"
  by (simp add: CR_def LF_def)

text \<open>In CRLF-encoded text no two line feeds are adjacent.\<close>

lemma crlf_no_boundary_Cons: "find_boundary (c # crlf_encoding t) = None"
proof (induction t arbitrary: c)
  case Nil
  then show ?case by simp
next
  case (Cons a t)
  show ?case
  proof (cases "a = LF")
    case True
    then show ?thesis using Cons [of LF] CR_not_LF by simp
  next
    case False
    then show ?thesis using Cons [of a] by simp
  qed
qed

lemma crlf_no_boundary: "find_boundary (crlf_encoding t) = None"
proof (cases t)
  case Nil
  then show ?thesis by simp
next
  case (Cons a t')
  then show ?thesis
    using crlf_no_boundary_Cons [of LF t'] crlf_no_boundary_Cons [of a t'] CR_not_LF
    by simp
qed

lemma sse_no_boundary_no_event:
  "find_boundary (snd (decode_chunk step d0 (concat chunks))) = None \<Longrightarrow>
   parseSseStream step d0 num (map Chunk chunks) = ([], Completed)"
  using sse_loop_chunks [of step num d0 "[]" chunks]
  by (simp add: parseSseStream_def drain_None del: sse_loop.simps)

text \<open>
  C6 (the code departs from the claim). The frame boundary is searched in the buffer as
  two adjacent line feeds, before any treatment of carriage returns; only the lines
  inside a frame are split at \<open>\r?\n\<close>. The LF-encoded input \<open>data: a\n\n\<close> yields the
  event with data \<open>a\<close>; its CRLF encoding \<open>data: a\r\n\r\n\<close> yields no event, and
  neither does the CRLF encoding of any other input.
\<close>

theorem sse_crlf_frames_lost:
  "parseSseStream seven_bit () num [Chunk (''data: a'' @ [LF, LF])]
     = ([\<lparr>data = ''a'', event = None, event_id = None, retry = None\<rparr>], Completed)
   \<and> crlf_encoding (''data: a'' @ [LF, LF]) = ''data: a'' @ [CR, LF, CR, LF]
   \<and> parseSseStream seven_bit () num [Chunk (''data: a'' @ [CR, LF, CR, LF])] = ([], Completed)
   \<and> (\<forall>t. parseSseStream seven_bit () num [Chunk (crlf_encoding t)] = ([], Completed))"
proof (intro conjI allI)
  show "parseSseStream seven_bit () num [Chunk (''data: a'' @ [LF, LF])]
     = ([\<lparr>data = ''a'', event = None, event_id = None, retry = None\<rparr>], Completed)"
    by (simp add: parseSseStream_def seven_bit_def drain.simps LF_def parse_frame_def
        process_line_def empty_fields_def extend_first_def Let_def)
  show enc: "crlf_encoding (''data: a'' @ [LF, LF]) = ''data: a'' @ [CR, LF, CR, LF]"
    by (simp add: LF_def)
  show all: "parseSseStream seven_bit () num [Chunk (crlf_encoding t)] = ([], Completed)" for t
    using sse_no_boundary_no_event [of seven_bit "()" "[crlf_encoding t]" num]
    by (simp add: decode_seven_bit crlf_no_boundary)
  show "parseSseStream seven_bit () num [Chunk (''data: a'' @ [CR, LF, CR, LF])] = ([], Completed)"
    using all [of "''data: a'' @ [LF, LF]"] by (simp only: enc)
qed

text \<open>
  C10. Let the decoded text of the stream be \<open>body @ tail\<close>, where \<open>body\<close> is consumed
  entirely by the frames cut off it (it is empty or ends with the last blank-line
  separator) and \<open>tail\<close> holds no blank line. Then the generator yields exactly the
  events of the frames of \<open>body\<close> and completes; whatever \<open>tail\<close> holds is never yielded.
\<close>

theorem sse_unterminated_tail_dropped:
  "snd (decode_chunk step d0 (concat chunks)) = body @ tail
     \<and> snd (drain num body) = [] \<and> find_boundary tail = None
   \<longrightarrow> parseSseStream step d0 num (map Chunk chunks) = (fst (drain num body), Completed)"
proof (intro impI, elim conjE)
  assume decoded: "snd (decode_chunk step d0 (concat chunks)) = body @ tail"
    and consumed: "snd (drain num body) = []"
    and tail: "find_boundary tail = None"
  have "fst (drain num (body @ tail)) = fst (drain num body)"
    by (subst drain_append) (simp add: consumed drain_None [OF tail])
  moreover have "chunks = [] \<Longrightarrow> fst (drain num body) = []"
    using decoded by (simp add: drain_None)
  ultimately show "parseSseStream step d0 num (map Chunk chunks) = (fst (drain num body), Completed)"
    using sse_loop_chunks [of step num d0 "[]" chunks] decoded
    by (simp add: parseSseStream_def del: sse_loop.simps)
qed

theorem sse_unterminated_tail_dropped_witness:
  "snd (decode_chunk seven_bit () (concat [''data: a'' @ [LF, LF] @ ''da'', ''ta: b'']))
     = (''data: a'' @ [LF, LF]) @ ''data: b''
   \<and> drain (\<lambda>v. None :: nat option) (''data: a'' @ [LF, LF])
     = ([\<lparr>data = ''a'', event = None, event_id = None, retry = None\<rparr>], [])
   \<and> find_boundary ''data: b'' = None
   \<and> parseSseStream seven_bit () (\<lambda>v. None :: nat option)
        (map Chunk [''data: a'' @ [LF, LF] @ ''da'', ''ta: b''])
     = ([\<lparr>data = ''a'', event = None, event_id = None, retry = None\<rparr>], Completed)"
proof -
  have d: "snd (decode_chunk seven_bit () (concat [''data: a'' @ [LF, LF] @ ''da'', ''ta: b'']))
     = (''data: a'' @ [LF, LF]) @ ''data: b''"
    by (simp add: seven_bit_def)
  have b: "drain (\<lambda>v. None :: nat option) (''data: a'' @ [LF, LF])
     = ([\<lparr>data = ''a'', event = None, event_id = None, retry = None\<rparr>], [])"
    by (simp add: drain.simps LF_def parse_frame_def process_line_def empty_fields_def
        extend_first_def Let_def)
  have t: "find_boundary ''data: b'' = None"
    by (simp add: LF_def)
  show ?thesis
    using sse_unterminated_tail_dropped [of seven_bit "()"
        "[''data: a'' @ [LF, LF] @ ''da'', ''ta: b'']" "''data: a'' @ [LF, LF]" "''data: b''"
        "\<lambda>v. None :: nat option"] d b t
    by simp
qed

section \<open>Tool-call arguments\<close>








section \<open>Function-response normalization\<close>

lemma lastIndexOf_zero: "lastIndexOf s c = Some 0 \<Longrightarrow> s \<noteq> [] \<and> hd s = c"
  by (cases s) (auto split: option.splits if_splits)

lemma startsWith_single: "startsWith s [c] = (s \<noteq> [] \<and> hd s = c)"
  by (cases s) (simp_all add: startsWith_def)

lemma truncated_repair_eq:
  assumes "startsWith stripped [lb]" "lb \<noteq> rb"
  shows "truncated_repair parse stripped rb =
           (case lastIndexOf stripped rb of
              None \<Rightarrow> None
            | Some k \<Rightarrow> parse (take (k + 1) stripped))"
proof (cases "lastIndexOf stripped rb")
  case None
  then show ?thesis by (simp add: truncated_repair_def)
next
  case (Some k)
  have "k \<noteq> 0"
  proof
    assume "k = 0"
    with Some have "hd stripped = rb" using lastIndexOf_zero by blast
    with assms show False by (simp add: startsWith_single)
  qed
  with Some show ?thesis by (simp add: truncated_repair_def)
qed

text \<open>
  C5 (as stated, refuted). The text \<^verbatim>\<open>[{"a":1},{"b":2\<close> holds no \<open>]\<close> at all, so there
  is nothing to trim to (\<open>lastIndexOf\<close> is -1): whatever the parser does, the walk
  returns the string itself and not the array \<^verbatim>\<open>[{"a":1}]\<close>.
\<close>

theorem truncation_counterexample:
  "(\<forall>n parse. recursivelyParseJsonStrings (Suc n) parse (JStr truncated_array)
       = Some (JStr truncated_array))
   \<and> lastIndexOf truncated_array CHR '']'' = None
   \<and> JStr truncated_array \<noteq> JArr [JObj [(''a'', JNum 1)]]"
proof -
  have a: "\<not> hasControlCharEscapes truncated_array" by code_simp
  have b: "js_trim truncated_array = truncated_array" by code_simp
  have c: "startsWith truncated_array ''[''" "\<not> endsWith truncated_array '']''"
    "\<not> startsWith truncated_array ''{''" "lastIndexOf truncated_array CHR '']'' = None"
    "truncated_array \<noteq> []"
    by code_simp+
  have "string_case parse truncated_array = Return (JStr truncated_array)" for parse
    by (simp add: string_case_def a b c truncated_repair_def Let_def)
  then show ?thesis using c by simp
qed

text \<open>
  C5 (amended). Take a string that the escape-sequence cleanup does not rewrite and
  whose trimmed text starts with \<open>[\<close> and does not end with \<open>]\<close> (or starts with \<open>{\<close> and
  does not end with \<open>}\<close>). If the trimmed text holds a closing bracket of that kind and
  its prefix up to the last one parses, the result is the walk of the parsed value.
  Otherwise, when it holds no such bracket or the prefix does not parse, the original
  string is returned unmodified.
\<close>

theorem truncated_repair_behaviour:
  "((lb = CHR ''['' \<and> rb = CHR '']'') \<or> (lb = CHR ''{'' \<and> rb = CHR ''}''))
   \<and> (hasControlCharEscapes s \<and> \<not> hasIntentionalEscapes s
         \<longrightarrow> (\<forall>u. parse (quote_literal s) \<noteq> Some (JStr u)))
   \<and> startsWith (js_trim s) [lb] \<and> \<not> endsWith (js_trim s) [rb]
   \<longrightarrow> recursivelyParseJsonStrings (Suc n) parse (JStr s) =
        (case lastIndexOf (js_trim s) rb of
           None \<Rightarrow> Some (JStr s)
         | Some k \<Rightarrow>
             (case parse (take (k + 1) (js_trim s)) of
                None \<Rightarrow> Some (JStr s)
              | Some parsed \<Rightarrow> recursivelyParseJsonStrings n parse parsed))"
proof (intro impI, elim conjE)
  assume pair: "(lb = CHR ''['' \<and> rb = CHR '']'') \<or> (lb = CHR ''{'' \<and> rb = CHR ''}'')"
    and esc: "hasControlCharEscapes s \<and> \<not> hasIntentionalEscapes s
         \<longrightarrow> (\<forall>u. parse (quote_literal s) \<noteq> Some (JStr u))"
    and st: "startsWith (js_trim s) [lb]" and en: "\<not> endsWith (js_trim s) [rb]"
  let ?t = "js_trim s"
  have ne: "?t \<noteq> []" using st by (simp add: startsWith_single)
  have unesc: "(if hasControlCharEscapes s \<and> \<not> hasIntentionalEscapes s
             then (case parse (quote_literal s) of Some (JStr u) \<Rightarrow> Some u | _ \<Rightarrow> None)
             else None) = None"
    using esc by (auto split: option.splits json.splits)
  have diff: "lb \<noteq> rb" using pair by auto
  note rep = truncated_repair_eq [OF st diff, of parse]
  from pair have sc: "string_case parse s =
      (case truncated_repair parse ?t rb of
         Some parsed \<Rightarrow> Recurse parsed | None \<Rightarrow> Return (JStr s))"
  proof
    assume p: "lb = CHR ''['' \<and> rb = CHR '']''"
    then have "\<not> startsWith ?t ''{''" using st by (simp add: startsWith_single)
    then show ?thesis
      using p st en ne unesc by (simp add: string_case_def Let_def split: option.splits)
  next
    assume p: "lb = CHR ''{'' \<and> rb = CHR ''}''"
    then have "\<not> startsWith ?t ''[''" using st by (simp add: startsWith_single)
    then show ?thesis
      using p st en ne unesc by (simp add: string_case_def Let_def split: option.splits)
  qed
  show "recursivelyParseJsonStrings (Suc n) parse (JStr s) =
        (case lastIndexOf (js_trim s) rb of
           None \<Rightarrow> Some (JStr s)
         | Some k \<Rightarrow>
             (case parse (take (k + 1) (js_trim s)) of
                None \<Rightarrow> Some (JStr s)
              | Some parsed \<Rightarrow> recursivelyParseJsonStrings n parse parsed))"
    by (simp add: sc rep split: option.splits)
qed

text \<open>The complete array \<^verbatim>\<open>[{"a":1}]\<close> followed by other text is trimmed to its last
  \<open>]\<close> and parsed.\<close>

theorem truncated_repair_behaviour_witness:
  "\<not> hasControlCharEscapes array_with_tail
   \<and> startsWith (js_trim array_with_tail) ''['' \<and> \<not> endsWith (js_trim array_with_tail) '']''
   \<and> lastIndexOf (js_trim array_with_tail) CHR '']'' = Some 8
   \<and> json_parse (take 9 (js_trim array_with_tail)) = Some (JArr [JObj [(''a'', JNum 1)]])
   \<and> recursivelyParseJsonStrings (Suc 3) json_parse (JStr array_with_tail)
       = Some (JArr [JObj [(''a'', JNum 1)]])"
proof -
  have a: "\<not> hasControlCharEscapes array_with_tail" by code_simp
  have b: "startsWith (js_trim array_with_tail) ''[''" "\<not> endsWith (js_trim array_with_tail) '']''"
    by code_simp+
  have c: "lastIndexOf (js_trim array_with_tail) CHR '']'' = Some 8" by code_simp
  have d: "json_parse (take 9 (js_trim array_with_tail)) = Some (JArr [JObj [(''a'', JNum 1)]])"
    by code_simp
  have e: "recursivelyParseJsonStrings 3 json_parse (JArr [JObj [(''a'', JNum 1)]])
       = Some (JArr [JObj [(''a'', JNum 1)]])"
    by code_simp
  have "recursivelyParseJsonStrings (Suc 3) json_parse (JStr array_with_tail)
       = Some (JArr [JObj [(''a'', JNum 1)]])"
    using truncated_repair_behaviour [where lb = "CHR ''[''" and rb = "CHR '']''"
        and s = array_with_tail and parse = json_parse and n = 3] a b c d e
    by simp
  with a b c d show ?thesis by simp
qed

section \<open>The depth of the walk\<close>


declare recursivelyParseJsonStrings.simps(2) [simp del]

































end
